theory Spec2Isabelle
  imports Complex_Main "HOL-Library.Multiset"
begin

section \<open>Lyrics player (music\_player.py): data model\<close>

text \<open>
  The player keeps its lyric timeline as a list of pairs \<open>(t, text)\<close>, \<open>t\<close> a Python float
  holding seconds. Floats are idealised as exact rationals: rounding and infinities are
  not modelled, but the one way a float operation of the parser raises, the conversion of
  an integer that is too large, is (\<open>py_float\<close>). Strings are lists of \<open>char\<close>, read as
  code points below 256; on that range the regular expression class \<open>\d\<close> is exactly the
  ASCII digits and \<open>str.isspace\<close> is exactly the set \<open>is_space\<close> below.
\<close>

type_synonym entry = "rat \<times> string"

datatype py_error = OSError | OverflowError

record music_player =
  playing :: bool
  paused :: bool
  audio_path :: "string option"
  lrc :: "entry list"
  start_time :: rat
  pause_offset :: rat
  pygame_initialized :: bool
  btn_play :: string
  lyric_var :: string

text \<open>The state built by \<open>__init__\<close>.\<close>

definition init_player :: music_player where
  "init_player =
     \<lparr>playing = False, paused = False, audio_path = None, lrc = [],
      start_time = 0, pause_offset = 0, pygame_initialized = False,
      btn_play = ''Play'',
      lyric_var = ''Lyrics will appear here when a .lrc file is loaded (same folder as audio or chosen).''\<rparr>"

section \<open>parse\_lrc\<close>

subsection \<open>Characters and conversions\<close>

definition LF :: char where
  "LF = CHR 0x0A"

definition is_digit :: "char \<Rightarrow> bool" where
  "is_digit c = (48 \<le> (of_char c :: nat) \<and> (of_char c :: nat) \<le> 57)"

definition is_space :: "char \<Rightarrow> bool" where
  "is_space c = ((of_char c :: nat) \<in> {9, 10, 11, 12, 13, 28, 29, 30, 31, 32, 133, 160})"

text \<open>\<open>str.strip()\<close>: leading and trailing whitespace removed.\<close>

definition strip :: "string \<Rightarrow> string" where
  "strip s = rev (dropWhile is_space (rev (dropWhile is_space s)))"

text \<open>
  \<open>int(s)\<close> on a string of decimal digits, the only strings the pattern hands it. (The
  limit some interpreters put on the number of digits of \<open>s\<close>, 4300 by default, is not
  modelled.)
\<close>

definition py_int :: "string \<Rightarrow> int" where
  "py_int s = foldl (\<lambda>a c. 10 * a + (int (of_char c) - 48)) 0 s"

text \<open>
  Conversion of a Python integer to a float, as the mixed operations \<open>ms / 1000.0\<close> and
  \<open>int + float\<close> perform it: an integer that rounds to \<open>2 ^ 1024\<close> or beyond raises
  OverflowError (int too large to convert to float).
\<close>

definition float_limit :: int where
  "float_limit = 2 ^ 1024 - 2 ^ 970"

definition py_float :: "int \<Rightarrow> py_error + rat" where
  "py_float n = (if float_limit \<le> \<bar>n\<bar> then Inl OverflowError else Inr (of_int n))"

subsection \<open>The pattern \<open>\[(\d+):(\d+)(?:\.(\d+))?\](.*)\<close>\<close>

text \<open>
  \<open>match_marker s\<close> matches the bracketed part at the start of \<open>s\<close> and returns groups 1, 2
  and 3 with the text after the closing bracket. Each \<open>\d+\<close> is followed by a character
  that is not a digit, so only the longest run of digits can match, and the optional
  group cannot be skipped when a dot follows the seconds.
\<close>

definition match_marker :: "string \<Rightarrow> (string \<times> string \<times> string option \<times> string) option" where
  "match_marker s =
     (case s of
        [] \<Rightarrow> None
      | c # s1 \<Rightarrow>
          if c \<noteq> CHR ''['' then None
          else let d1 = takeWhile is_digit s1; r1 = dropWhile is_digit s1 in
          if d1 = [] then None
          else (case r1 of
             [] \<Rightarrow> None
           | c1 # s2 \<Rightarrow>
               if c1 \<noteq> CHR '':'' then None
               else let d2 = takeWhile is_digit s2; r2 = dropWhile is_digit s2 in
               if d2 = [] then None
               else (case r2 of
                  [] \<Rightarrow> None
                | c2 # s3 \<Rightarrow>
                    if c2 = CHR '']'' then Some (d1, d2, None, s3)
                    else if c2 \<noteq> CHR ''.'' then None
                    else let d3 = takeWhile is_digit s3; r3 = dropWhile is_digit s3 in
                    if d3 = [] then None
                    else (case r3 of
                       [] \<Rightarrow> None
                     | c3 # s4 \<Rightarrow>
                         if c3 = CHR '']'' then Some (d1, d2, Some d3, s4) else None))))"

text \<open>
  The whole pattern at the start of \<open>s\<close>: group 4 is \<open>(.*)\<close>, every character up to the
  next line feed. The result is the four groups and the text left after the match.
\<close>

definition match_at ::
  "string \<Rightarrow> ((string \<times> string \<times> string option \<times> string) \<times> string) option" where
  "match_at s =
     (case match_marker s of
        None \<Rightarrow> None
      | Some (d1, d2, d3, r) \<Rightarrow>
          Some ((d1, d2, d3, takeWhile (\<lambda>c. c \<noteq> LF) r), dropWhile (\<lambda>c. c \<noteq> LF) r))"

text \<open>
  \<open>pattern.finditer(line)\<close>: the matches from left to right, each search starting where
  the previous match ended.
\<close>

function finditer :: "string \<Rightarrow> (string \<times> string \<times> string option \<times> string) list" where
  "finditer s =
     (if s = [] then []
      else (case match_at s of
              Some (m, rest) \<Rightarrow> m # finditer rest
            | None \<Rightarrow> finditer (tl s)))"
  by pat_completeness auto
termination
proof (relation "measure length")
  show "wf (measure length)" by simp
next
  fix s :: string and x2 x y
  assume ne: "s \<noteq> []" and m: "match_at s = Some x2" and x: "(x, y) = x2"
  from m x obtain d1 d2 d3 r where mm: "match_marker s = Some (d1, d2, d3, r)"
    and y: "y = dropWhile (\<lambda>c. c \<noteq> LF) r"
    by (auto simp: match_at_def split: option.splits)
  from mm obtain c s1 where s: "s = c # s1"
    by (cases s) (auto simp: match_marker_def)
  have le: "\<And>P (xs :: string). length (dropWhile P xs) \<le> length xs"
    by (rule length_dropWhile_le)
  have suf: "\<And>P (xs :: string) z zs. dropWhile P xs = z # zs \<Longrightarrow> length zs < length xs"
  proof -
    fix P and xs :: string and z zs
    assume "dropWhile P xs = z # zs"
    then have "Suc (length zs) \<le> length xs"
      using le [of P xs] by simp
    then show "length zs < length xs" by simp
  qed
  from mm s have "length r < length s"
    by (auto simp: match_marker_def Let_def split: if_splits list.splits dest!: suf)
  with y show "(y, s) \<in> measure length"
    using le [of "\<lambda>c. c \<noteq> LF" r] by simp
next
  fix s :: string
  assume "s \<noteq> []" and "match_at s = None"
  then show "(tl s, s) \<in> measure length"
    by (cases s) simp_all
qed

text \<open>The body of the inner loop: one match gives one entry, or the float conversion raises.\<close>

definition entry_of_match :: "string \<times> string \<times> string option \<times> string \<Rightarrow> py_error + entry" where
  "entry_of_match m =
     (case m of (g1, g2, g3, g4) \<Rightarrow>
        let mm = py_int g1;
            ss = py_int g2;
            ms = (case g3 of None \<Rightarrow> 0 | Some d \<Rightarrow> py_int d);
            text = strip g4
        in (case py_float ms of
              Inl e \<Rightarrow> Inl e
            | Inr f \<Rightarrow>
                (case py_float (mm * 60 + ss) of
                   Inl e \<Rightarrow> Inl e
                 | Inr whole \<Rightarrow> Inr (whole + f / 1000, text))))"

text \<open>The two loops, appending to \<open>entries\<close>; an exception ends them.\<close>

fun parse_matches ::
  "entry list \<Rightarrow> (string \<times> string \<times> string option \<times> string) list \<Rightarrow> py_error + entry list" where
  "parse_matches entries [] = Inr entries"
| "parse_matches entries (m # ms) =
     (case entry_of_match m of
        Inl e \<Rightarrow> Inl e
      | Inr en \<Rightarrow> parse_matches (entries @ [en]) ms)"

fun parse_lines :: "entry list \<Rightarrow> string list \<Rightarrow> py_error + entry list" where
  "parse_lines entries [] = Inr entries"
| "parse_lines entries (line # rest) =
     (case parse_matches entries (finditer (strip line)) of
        Inl e \<Rightarrow> Inl e
      | Inr entries' \<Rightarrow> parse_lines entries' rest)"

text \<open>
  The caption source is what \<open>open\<close> and the iteration over the file give: an error when
  the file cannot be read, otherwise its lines. \<open>read_entries\<close> is \<open>entries\<close> as the loops
  leave it, in the order of the file.
\<close>

definition read_entries :: "py_error + string list \<Rightarrow> py_error + entry list" where
  "read_entries source =
     (case source of
        Inl e \<Rightarrow> Inl e
      | Inr file_lines \<Rightarrow> parse_lines [] file_lines)"

text \<open>\<open>entries.sort(key=lambda x: x[0])\<close> is a stable sort on the offset.\<close>

definition parse_lrc :: "py_error + string list \<Rightarrow> py_error + entry list" where
  "parse_lrc source =
     (case read_entries source of
        Inl e \<Rightarrow> Inl e
      | Inr entries \<Rightarrow> Inr (sort_key fst entries))"

section \<open>Playback state and the update loop\<close>

text \<open>
  The mixer and the clock are outside the program: each operation takes what they give
  it. \<open>pos\<close> is the value of \<open>pygame.mixer.music.get_pos()\<close> (milliseconds, negative when
  the mixer has no position to report), \<open>now\<close> the value of \<open>time.time()\<close>, and \<open>play_ok\<close>
  says whether \<open>pygame.mixer.music.play()\<close> returned without raising.
\<close>

definition play_pause :: "music_player \<Rightarrow> bool \<Rightarrow> int \<Rightarrow> rat \<Rightarrow> music_player" where
  "play_pause p play_ok pos now =
     (if audio_path p = None then p
      else if \<not> playing p then
        (if \<not> play_ok then p
         else p\<lparr>start_time := now - pause_offset p / 1000,
                playing := True, paused := False, btn_play := ''Pause''\<rparr>)
      else if \<not> paused p then
        p\<lparr>paused := True, pause_offset := of_int pos, btn_play := ''Resume''\<rparr>
      else
        p\<lparr>start_time := now - pause_offset p / 1000,
          paused := False, btn_play := ''Pause''\<rparr>)"

definition stop :: "music_player \<Rightarrow> music_player" where
  "stop p =
     p\<lparr>playing := False, paused := False, pause_offset := 0,
       btn_play := ''Play'', lyric_var := ''Playback stopped.''\<rparr>"

definition get_play_time :: "music_player \<Rightarrow> int \<Rightarrow> rat \<Rightarrow> rat" where
  "get_play_time p pos now =
     (if \<not> pygame_initialized p then 0
      else if 0 \<le> pos then of_int pos / 1000
      else if playing p \<and> \<not> paused p then now - start_time p
      else if paused p then pause_offset p / 1000
      else 0)"

text \<open>
  The \<open>for\<close> loop of \<open>update_loop\<close>: \<open>text\<close> takes the lyric of every entry passed, and the
  first entry later than \<open>t + 0.1\<close> ends the loop.
\<close>

fun lyric_scan :: "rat \<Rightarrow> string \<Rightarrow> entry list \<Rightarrow> string" where
  "lyric_scan t text [] = text"
| "lyric_scan t text ((time_s, lyric) # rest) =
     (if time_s \<le> t + 1 / 10 then lyric_scan t lyric rest else text)"

text \<open>
  The same loop counting the entries it passes: the position it resolves to, 0 when it
  stops before the first entry.
\<close>

fun scan_pos :: "rat \<Rightarrow> entry list \<Rightarrow> nat" where
  "scan_pos t [] = 0"
| "scan_pos t ((time_s, lyric) # rest) =
     (if time_s \<le> t + 1 / 10 then Suc (scan_pos t rest) else 0)"

text \<open>
  One run of \<open>update_loop\<close>. \<open>update_loop_set\<close> is the argument of the call
  \<open>self.lyric_var.set(text)\<close> when the run makes it, \<open>None\<close> when it does not.
\<close>

definition update_loop_set :: "music_player \<Rightarrow> int \<Rightarrow> rat \<Rightarrow> string option" where
  "update_loop_set p pos now =
     (if playing p \<or> paused p then
        (let t = get_play_time p pos now;
             text = lyric_scan t [] (lrc p)
         in if text \<noteq> [] then Some text else None)
      else None)"

definition update_loop :: "music_player \<Rightarrow> int \<Rightarrow> rat \<Rightarrow> music_player" where
  "update_loop p pos now =
     (case update_loop_set p pos now of
        None \<Rightarrow> p
      | Some text \<Rightarrow> p\<lparr>lyric_var := text\<rparr>)"

text \<open>
  Successive runs of \<open>update_loop\<close>, one per reading of the mixer and the clock: for each
  run, the call of \<open>set\<close> it made (if any) and the text shown after it.
\<close>

fun run_ticks :: "music_player \<Rightarrow> (int \<times> rat) list \<Rightarrow> (string option \<times> string) list" where
  "run_ticks p [] = []"
| "run_ticks p ((pos, now) # readings) =
     (update_loop_set p pos now, lyric_var (update_loop p pos now))
       # run_ticks (update_loop p pos now) readings"

section \<open>The specification's notions\<close>



section \<open>Example states\<close>

text \<open>
  The timeline of the specification's worked example, in the seconds the player uses, and
  the state a successful \<open>load\<close> of an audio file with a given timeline leaves.
\<close>

definition section8_timeline :: "entry list" where
  "section8_timeline = [(0, ''A''), (2, ''B''), (2, ''C''), (5, ''D'')]"

definition loaded_player :: "entry list \<Rightarrow> music_player" where
  "loaded_player timeline =
     init_player\<lparr>pygame_initialized := True, audio_path := Some ''song.mp3'', lrc := timeline\<rparr>"

text \<open>
  The worked example playing (Play pressed at clock 100), and the readings of its five
  ticks: mixer positions 0, 1000, 2000, 2000 and 6000 ms.
\<close>

definition section8_playing :: music_player where
  "section8_playing = play_pause (loaded_player section8_timeline) True 0 100"

definition section8_readings :: "(int \<times> rat) list" where
  "section8_readings = [(0, 100), (1000, 101), (2000, 102), (2000, 102), (6000, 106)]"

text \<open>
  A timeline whose second line has a marker and no text, playing, after a first tick has
  shown \<open>A\<close>.
\<close>

definition blank_line_player :: music_player where
  "blank_line_player =
     update_loop (play_pause (loaded_player [(0, ''A''), (1, [])]) True 0 100) 0 100"

text \<open>A timeline whose only entry starts at 5 s, playing, after a tick at 5 s has shown it.\<close>

definition late_start_player :: music_player where
  "late_start_player =
     update_loop (play_pause (loaded_player [(5, ''A'')]) True 0 100) 5000 105"

text \<open>A timeline of two entries, playing.\<close>

definition jitter_player :: music_player where
  "jitter_player = play_pause (loaded_player [(0, ''A''), (2, ''B'')]) True 0 100"

section \<open>The elapsed position\<close>

text \<open>
  C4. \<open>get_play_time\<close> has no failing path: the mixer is asked for its position only once
  it is initialised, and before that the result is 0. With the mixer initialised the
  result is the mixer's own position in seconds whenever that position is not negative;
  otherwise the wall clock minus the start reference while playing and not paused;
  otherwise the frozen pause offset in seconds while paused; and 0 otherwise.
\<close>

theorem get_play_time_cases:
  "(\<not> pygame_initialized p \<longrightarrow> get_play_time p pos now = 0) \<and>
   (pygame_initialized p \<and> 0 \<le> pos \<longrightarrow> get_play_time p pos now = of_int pos / 1000) \<and>
   (pygame_initialized p \<and> pos < 0 \<and> playing p \<and> \<not> paused p \<longrightarrow>
      get_play_time p pos now = now - start_time p) \<and>
   (pygame_initialized p \<and> pos < 0 \<and> paused p \<longrightarrow>
      get_play_time p pos now = pause_offset p / 1000) \<and>
   (pygame_initialized p \<and> pos < 0 \<and> \<not> playing p \<and> \<not> paused p \<longrightarrow>
      get_play_time p pos now = 0)"
  by (simp add: get_play_time_def)

theorem get_play_time_cases_witness:
  "get_play_time init_player 1500 7 = 0 \<and>
   get_play_time (play_pause (loaded_player section8_timeline) True 0 100) 1500 107 = 3 / 2 \<and>
   get_play_time (play_pause (loaded_player section8_timeline) True 0 100) (- 1) 107 = 7 \<and>
   get_play_time
     (play_pause (play_pause (loaded_player section8_timeline) True 0 100) True 2500 103)
     (- 1) 107 = 5 / 2 \<and>
   get_play_time (loaded_player section8_timeline) (- 1) 107 = 0"
  using get_play_time_cases [of init_player 1500 7]
    get_play_time_cases [of "play_pause (loaded_player section8_timeline) True 0 100" 1500 107]
    get_play_time_cases [of "play_pause (loaded_player section8_timeline) True 0 100" "- 1" 107]
    get_play_time_cases
      [of "play_pause (play_pause (loaded_player section8_timeline) True 0 100) True 2500 103"
        "- 1" 107]
    get_play_time_cases [of "loaded_player section8_timeline" "- 1" 107]
  by (simp add: play_pause_def loaded_player_def init_player_def)

section \<open>The parser\<close>

subsection \<open>One match per line\<close>

text \<open>
  Group 4 of the pattern runs to the next line feed, and a line of a file has none left
  once it is stripped: the first match ends at the end of the line and \<open>finditer\<close> finds no
  second one.
\<close>

lemma match_at_no_LF:
  assumes "match_at s = Some (m, rest)" and "LF \<notin> set s"
  shows "rest = []"
proof -
  from assms(1) obtain d1 d2 d3 r where mm: "match_marker s = Some (d1, d2, d3, r)"
    and rest: "rest = dropWhile (\<lambda>c. c \<noteq> LF) r"
    by (auto simp: match_at_def split: option.splits)
  have sub: "\<And>P (xs :: string). set (dropWhile P xs) \<subseteq> set xs"
    by (simp add: set_dropWhileD subsetI)
  have cons: "\<And>P (xs :: string) z zs. dropWhile P xs = z # zs \<Longrightarrow> set zs \<subseteq> set xs"
    by (metis set_subset_Cons sub subset_trans)
  from mm have "set r \<subseteq> set s"
    by (auto simp: match_marker_def Let_def split: list.splits if_splits dest!: cons)
  with assms(2) have "LF \<notin> set r" by blast
  then show ?thesis
    unfolding rest by (auto simp: dropWhile_eq_Nil_conv)
qed

lemma finditer_no_LF: "LF \<notin> set s \<Longrightarrow> length (finditer s) \<le> 1"
proof (induction s rule: finditer.induct)
  case (1 s)
  show ?case
  proof (cases "s = []")
    case True
    then show ?thesis by simp
  next
    case ne: False
    show ?thesis
    proof (cases "match_at s")
      case None
      from "1.prems" ne have "LF \<notin> set (tl s)"
        by (cases s) auto
      with "1.IH"(1) [OF ne None] None ne show ?thesis
        by (subst finditer.simps) simp
    next
      case (Some a)
      obtain m rest where a: "a = (m, rest)" by (cases a)
      with Some "1.prems" have "rest = []"
        using match_at_no_LF by blast
      with Some a ne show ?thesis
        by (subst finditer.simps) simp
    qed
  qed
qed

text \<open>
  C7. The claim is that a line with \<open>n\<close> markers gives \<open>n\<close> entries sharing the trailing
  text. On the claim's own example the parser gives one entry, at the first marker, whose
  text is the rest of the line with the second marker in it.
\<close>

theorem two_markers_one_entry:
  "read_entries (Inr [''[0:01][0:02]hello'']) = Inr [(1, ''[0:02]hello'')]"
  by code_simp

subsection \<open>Offsets\<close>




subsection \<open>The timeline is sorted, and the sort is stable\<close>

text \<open>
  C8. Whenever the parser returns a timeline, its offsets are in non-decreasing order, it
  holds exactly the entries read from the file, and the entries of any one offset stand in
  the order in which they were read.
\<close>

theorem parse_lrc_sorted_stable:
  assumes "parse_lrc source = Inr timeline"
  shows "sorted (map fst timeline) \<and>
    (\<exists>entries. read_entries source = Inr entries \<and> mset timeline = mset entries \<and>
       (\<forall>k. filter (\<lambda>e. fst e = k) timeline = filter (\<lambda>e. fst e = k) entries))"
proof -
  from assms obtain entries where r: "read_entries source = Inr entries"
    and t: "timeline = sort_key fst entries"
    by (auto simp: parse_lrc_def split: sum.splits)
  have "sorted (map fst timeline)" unfolding t by simp
  moreover have "mset timeline = mset entries" unfolding t by simp
  moreover have "\<forall>k. filter (\<lambda>e. fst e = k) timeline = filter (\<lambda>e. fst e = k) entries"
    unfolding t by (simp add: sort_key_stable)
  ultimately show ?thesis using r by blast
qed

theorem parse_lrc_sorted_stable_witness:
  "parse_lrc (Inr [''[0:05]D'', ''[0:02]B'', ''no marker here'', ''[0:00]A'', ''[0:02]C''])
     = Inr section8_timeline \<and>
   read_entries (Inr [''[0:05]D'', ''[0:02]B'', ''no marker here'', ''[0:00]A'', ''[0:02]C''])
     = Inr [(5, ''D''), (2, ''B''), (0, ''A''), (2, ''C'')] \<and>
   sorted (map fst section8_timeline) \<and>
   filter (\<lambda>e. fst e = 2) section8_timeline = [(2, ''B''), (2, ''C'')]"
proof -
  have p: "parse_lrc (Inr [''[0:05]D'', ''[0:02]B'', ''no marker here'', ''[0:00]A'', ''[0:02]C''])
     = Inr section8_timeline"
    by code_simp
  have r: "read_entries (Inr [''[0:05]D'', ''[0:02]B'', ''no marker here'', ''[0:00]A'', ''[0:02]C''])
     = Inr [(5, ''D''), (2, ''B''), (0, ''A''), (2, ''C'')]"
    by code_simp
  from parse_lrc_sorted_stable [OF p] r
  have "sorted (map fst section8_timeline) \<and>
    filter (\<lambda>e. fst e = 2) section8_timeline
      = filter (\<lambda>e. fst e = 2) [(5, ''D''), (2, ''B''), (0, ''A''), (2, ''C'')]"
    by auto
  with p r show ?thesis by simp
qed

subsection \<open>Failures of the parse\<close>

text \<open>
  An unreadable source fails the parse, a line without a marker adds nothing, and a source
  without any marker gives the empty timeline.
\<close>

lemma parse_lrc_unreadable: "parse_lrc (Inl e) = Inl e"
  by (simp add: parse_lrc_def read_entries_def)

lemma parse_lines_skip:
  "finditer (strip line) = [] \<Longrightarrow> parse_lines entries (line # rest) = parse_lines entries rest"
  by simp

lemma parse_lines_no_markers:
  "list_all (\<lambda>line. finditer (strip line) = []) file_lines \<Longrightarrow>
     parse_lines entries file_lines = Inr entries"
  by (induction file_lines) simp_all

lemma parse_lrc_no_markers:
  "list_all (\<lambda>line. finditer (strip line) = []) file_lines \<Longrightarrow> parse_lrc (Inr file_lines) = Inr []"
  by (simp add: parse_lrc_def read_entries_def parse_lines_no_markers)

text \<open>
  C9. The claim is that the parse fails only on a source that cannot be read. A readable
  file whose one line is a marker with 400 nines for the minutes makes the parse raise
  OverflowError: the minutes are a Python integer too large for the float addition.
\<close>

theorem huge_marker_overflow:
  "parse_lrc (Inr [CHR ''['' # replicate 400 CHR ''9'' @ '':00]x'']) = Inl OverflowError"
  by code_simp

section \<open>The update loop\<close>

subsection \<open>What the loop resolves\<close>

lemma lyric_scan_pos:
  "lyric_scan t cur timeline =
     (if scan_pos t timeline = 0 then cur else snd (timeline ! (scan_pos t timeline - 1)))"
proof (induction timeline arbitrary: cur)
  case Nil
  then show ?case by simp
next
  case (Cons e timeline)
  obtain time_s lyric where e: "e = (time_s, lyric)" by (cases e)
  show ?case
    unfolding e using Cons.IH [of lyric] by (cases "scan_pos t timeline") auto
qed


lemma scan_pos_mono: "t1 \<le> t2 \<Longrightarrow> scan_pos t1 timeline \<le> scan_pos t2 timeline"
  by (induction timeline) (auto split: prod.splits)




text \<open>A run of the loop changes nothing but the text shown.\<close>

lemma get_play_time_update_loop [simp]:
  "get_play_time (update_loop p pos now) pos' now' = get_play_time p pos' now'"
  by (simp add: update_loop_def get_play_time_def split: option.splits)

lemma update_loop_fields [simp]:
  "lrc (update_loop p pos now) = lrc p"
  "playing (update_loop p pos now) = playing p"
  "paused (update_loop p pos now) = paused p"
  by (simp_all add: update_loop_def split: option.splits)

subsection \<open>The text a tick presents\<close>




text \<open>
  C10. No tick sets the text shown to the empty string. When the entry the loop resolves
  has an empty text, and when the first entry of the timeline is still later than the
  elapsed reading plus 100 ms, the tick makes no call and leaves the player as it was. The
  parser does produce entries with an empty text: a marker with nothing after it.
\<close>

theorem tick_never_sets_empty:
  "update_loop_set p pos now \<noteq> Some [] \<and>
   (0 < scan_pos (get_play_time p pos now) (lrc p) \<and>
    snd (lrc p ! (scan_pos (get_play_time p pos now) (lrc p) - 1)) = [] \<longrightarrow>
      update_loop_set p pos now = None \<and> update_loop p pos now = p) \<and>
   (\<forall>ts lyric rest. lrc p = (ts, lyric) # rest \<and> get_play_time p pos now + 1 / 10 < ts \<longrightarrow>
      update_loop_set p pos now = None \<and> update_loop p pos now = p) \<and>
   parse_lrc (Inr [''[0:00]A'', ''[0:01]'']) = Inr [(0, ''A''), (1, [])]"
proof -
  have a: "update_loop_set p pos now \<noteq> Some []"
    by (simp add: update_loop_set_def Let_def)
  have b: "0 < scan_pos (get_play_time p pos now) (lrc p) \<and>
    snd (lrc p ! (scan_pos (get_play_time p pos now) (lrc p) - 1)) = [] \<longrightarrow>
      update_loop_set p pos now = None \<and> update_loop p pos now = p"
    by (simp add: update_loop_def update_loop_set_def Let_def lyric_scan_pos)
  have c: "\<forall>ts lyric rest. lrc p = (ts, lyric) # rest \<and> get_play_time p pos now + 1 / 10 < ts \<longrightarrow>
      update_loop_set p pos now = None \<and> update_loop p pos now = p"
    by (auto simp: update_loop_def update_loop_set_def Let_def)
  have d: "parse_lrc (Inr [''[0:00]A'', ''[0:01]'']) = Inr [(0, ''A''), (1, [])]"
    by code_simp
  from a b c d show ?thesis by blast
qed

theorem tick_never_sets_empty_witness:
  "lrc blank_line_player = [(0, ''A''), (1, [])] \<and>
   scan_pos (get_play_time blank_line_player 1000 101) (lrc blank_line_player) = 2 \<and>
   update_loop_set blank_line_player 1000 101 = None \<and>
   update_loop blank_line_player 1000 101 = blank_line_player \<and>
   lyric_var (update_loop blank_line_player 1000 101) = ''A'' \<and>
   update_loop_set (play_pause (stop late_start_player) True (- 1) 107) 1000 108 = None \<and>
   update_loop (play_pause (stop late_start_player) True (- 1) 107) 1000 108
     = play_pause (stop late_start_player) True (- 1) 107"
proof -
  let ?q = "play_pause (stop late_start_player) True (- 1) 107"
  have a: "0 < scan_pos (get_play_time blank_line_player 1000 101) (lrc blank_line_player) \<and>
    snd (lrc blank_line_player
          ! (scan_pos (get_play_time blank_line_player 1000 101) (lrc blank_line_player) - 1)) = []"
    by code_simp
  have b: "lrc ?q = (5, ''A'') # [] \<and> get_play_time ?q 1000 108 + 1 / 10 < 5"
    by code_simp
  have c: "lrc blank_line_player = [(0, ''A''), (1, [])]" by code_simp
  have d: "scan_pos (get_play_time blank_line_player 1000 101) (lrc blank_line_player) = 2"
    by code_simp
  have e: "lyric_var blank_line_player = ''A''" by code_simp
  from tick_never_sets_empty [of blank_line_player 1000 101] a
  have g: "update_loop_set blank_line_player 1000 101 = None \<and>
      update_loop blank_line_player 1000 101 = blank_line_player"
    by blast
  from tick_never_sets_empty [of ?q 1000 108] b
  have h: "update_loop_set ?q 1000 108 = None \<and> update_loop ?q 1000 108 = ?q"
    by blast
  from c d e g h show ?thesis by simp
qed

subsection \<open>Successive ticks\<close>

text \<open>
  C2, as the code has it. The loop keeps no record of the text it set last. When a tick
  resolves to the same position as the tick before it, it makes the same call of \<open>set\<close>
  again, with the same text, and the text shown does not change. On the worked example
  the five ticks call \<open>set\<close> with A, A, C, C and D, and the text shown after them is A, A,
  C, C and D.
\<close>

theorem same_entry_same_call:
  assumes "scan_pos (get_play_time p pos' now') (lrc p) = scan_pos (get_play_time p pos now) (lrc p)"
  shows "update_loop_set (update_loop p pos now) pos' now' = update_loop_set p pos now \<and>
         update_loop (update_loop p pos now) pos' now' = update_loop p pos now \<and>
         run_ticks section8_playing section8_readings =
           [(Some ''A'', ''A''), (Some ''A'', ''A''), (Some ''C'', ''C''), (Some ''C'', ''C''),
            (Some ''D'', ''D'')]"
proof -
  have t: "lyric_scan (get_play_time p pos' now') [] (lrc p)
         = lyric_scan (get_play_time p pos now) [] (lrc p)"
    using assms by (simp add: lyric_scan_pos)
  have s: "update_loop_set (update_loop p pos now) pos' now' = update_loop_set p pos now"
    using t by (simp add: update_loop_set_def Let_def)
  have u: "update_loop (update_loop p pos now) pos' now' = update_loop p pos now"
    unfolding update_loop_def [of "update_loop p pos now"] s
    by (simp add: update_loop_def split: option.splits)
  have r: "run_ticks section8_playing section8_readings =
           [(Some ''A'', ''A''), (Some ''A'', ''A''), (Some ''C'', ''C''), (Some ''C'', ''C''),
            (Some ''D'', ''D'')]"
    by code_simp
  from s u r show ?thesis by simp
qed

theorem same_entry_same_call_witness:
  "scan_pos (get_play_time section8_playing 1000 101) (lrc section8_playing) = 1 \<and>
   scan_pos (get_play_time section8_playing 0 100) (lrc section8_playing) = 1 \<and>
   update_loop_set section8_playing 0 100 = Some ''A'' \<and>
   update_loop_set (update_loop section8_playing 0 100) 1000 101 = Some ''A'' \<and>
   lyric_var (update_loop (update_loop section8_playing 0 100) 1000 101) = ''A''"
proof -
  have a: "scan_pos (get_play_time section8_playing 1000 101) (lrc section8_playing) = 1"
    by code_simp
  have b: "scan_pos (get_play_time section8_playing 0 100) (lrc section8_playing) = 1"
    by code_simp
  have c: "update_loop_set section8_playing 0 100 = Some ''A''"
    by code_simp
  have d: "lyric_var (update_loop section8_playing 0 100) = ''A''"
    by code_simp
  from same_entry_same_call [of section8_playing 1000 101 0 100] a b c d
  show ?thesis by simp
qed

text \<open>
  The claim as it is written fails on its own trace: the second and the fourth tick
  resolve to the entry of the tick before and call \<open>set\<close> all the same.
\<close>

theorem repeated_tick_counterexample:
  "scan_pos (get_play_time section8_playing 0 100) (lrc section8_playing) = 1 \<and>
   scan_pos (get_play_time (update_loop section8_playing 0 100) 1000 101)
     (lrc (update_loop section8_playing 0 100)) = 1 \<and>
   update_loop_set (update_loop section8_playing 0 100) 1000 101 = Some ''A'' \<and>
   map fst (run_ticks section8_playing section8_readings) =
     [Some ''A'', Some ''A'', Some ''C'', Some ''C'', Some ''D''] \<and>
   map fst (run_ticks section8_playing section8_readings) \<noteq>
     [Some ''A'', None, Some ''C'', None, Some ''D'']"
  by code_simp

text \<open>
  C3, as the code has it. The loop keeps no cursor: every tick scans the timeline from its
  start. Between two ticks on the same timeline the resolved position does not move back
  when the second elapsed reading is not smaller than the first.
\<close>

theorem later_reading_no_earlier_entry:
  assumes "lrc p' = lrc p"
    and "get_play_time p pos now \<le> get_play_time p' pos' now'"
  shows "scan_pos (get_play_time p pos now) (lrc p)
       \<le> scan_pos (get_play_time p' pos' now') (lrc p')"
  using assms by (simp add: scan_pos_mono)

text \<open>
  The witness: a tick at 1950 ms, Pause, Resume, and a tick at 1960 ms; both ticks resolve
  to the second entry.
\<close>

theorem later_reading_no_earlier_entry_witness:
  "lrc (play_pause (play_pause (update_loop jitter_player 1950 102) True 1950 102) True 1950 103)
     = lrc jitter_player \<and>
   get_play_time jitter_player 1950 102
     \<le> get_play_time
          (play_pause (play_pause (update_loop jitter_player 1950 102) True 1950 102) True 1950 103)
          1960 103 \<and>
   scan_pos (get_play_time jitter_player 1950 102) (lrc jitter_player) = 2 \<and>
   scan_pos
     (get_play_time
        (play_pause (play_pause (update_loop jitter_player 1950 102) True 1950 102) True 1950 103)
        1960 103)
     (lrc (play_pause (play_pause (update_loop jitter_player 1950 102) True 1950 102) True 1950 103))
     = 2"
proof -
  let ?p' = "play_pause (play_pause (update_loop jitter_player 1950 102) True 1950 102) True 1950 103"
  have a: "lrc ?p' = lrc jitter_player"
    by code_simp
  have b: "get_play_time jitter_player 1950 102 \<le> get_play_time ?p' 1960 103"
    by code_simp
  have c: "scan_pos (get_play_time jitter_player 1950 102) (lrc jitter_player) = 2"
    by code_simp
  have d: "scan_pos (get_play_time ?p' 1960 103) (lrc ?p') = 2"
    by code_simp
  from later_reading_no_earlier_entry [OF a b] a b c d show ?thesis by simp
qed

text \<open>
  The claim as it is written fails when the second reading is smaller: after a tick at
  1950 ms has resolved to the second entry (which starts at 2 s), a tick at 1850 ms
  resolves to the first entry again and shows its text.
\<close>

theorem jitter_counterexample:
  "playing jitter_player \<and>
   get_play_time jitter_player 1950 102 = 39 / 20 \<and>
   get_play_time (update_loop jitter_player 1950 102) 1850 102 = 37 / 20 \<and>
   scan_pos (get_play_time jitter_player 1950 102) (lrc jitter_player) = 2 \<and>
   scan_pos (get_play_time (update_loop jitter_player 1950 102) 1850 102)
     (lrc (update_loop jitter_player 1950 102)) = 1 \<and>
   lyric_var (update_loop jitter_player 1950 102) = ''B'' \<and>
   lyric_var (update_loop (update_loop jitter_player 1950 102) 1850 102) = ''A''"
  by code_simp

section \<open>Stop and restart\<close>




end
